theory Spec2Isabelle
  imports Complex_Main
begin

section \<open>The environment: exceptions, the file system, the record of open calls\<close>

text \<open>
  The program is \<^verbatim>\<open>src/main.py\<close>, a PySide6 text editor. The toolkit and the
  Python run time are its environment. A Python exception is a value carrying what
  \<^verbatim>\<open>str(e)\<close> returns; a function that can let one escape returns \<open>exn + 'a\<close>.
\<close>

type_synonym path = string

datatype exn = Exn string

fun str :: "exn \<Rightarrow> string" where
  "str (Exn m) = m"

text \<open>One call of Python's \<^verbatim>\<open>open(path, mode, encoding=...)\<close>, as the program wrote its arguments.\<close>

datatype io_call = Open path string string

fun encoding :: "io_call \<Rightarrow> string" where
  "encoding (Open p m enc) = enc"

text \<open>
  The file system holds, for each existing path, the text of the file. What the operating
  system refuses is given by three tables of faults: opening a path in a mode, reading an
  opened file, writing an opened file. \<open>not_found\<close> is the exception Python raises for
  opening a missing file for reading. \<open>io_log\<close> records every call of \<^verbatim>\<open>open\<close>.
\<close>

record world =
  files :: "path \<Rightarrow> string option"
  open_fault :: "path \<Rightarrow> string \<Rightarrow> exn option"
  read_fault :: "path \<Rightarrow> exn option"
  write_fault :: "path \<Rightarrow> exn option"
  not_found :: "path \<Rightarrow> exn"
  io_log :: "io_call list"

text \<open>
  \<^verbatim>\<open>with open(p, "r", encoding=enc) as file: ... file.read()\<close>: the call is recorded, then
  opening fails, or the file is missing, or reading fails, or the text is returned.
\<close>

definition read_text :: "path \<Rightarrow> string \<Rightarrow> world \<Rightarrow> (exn + string) \<times> world" where
  "read_text p enc w =
     (let w1 = w\<lparr>io_log := io_log w @ [Open p ''r'' enc]\<rparr> in
      case open_fault w p ''r'' of
        Some e \<Rightarrow> (Inl e, w1)
      | None \<Rightarrow>
         (case files w p of
            None \<Rightarrow> (Inl (not_found w p), w1)
          | Some content \<Rightarrow>
             (case read_fault w p of
                Some e \<Rightarrow> (Inl e, w1)
              | None \<Rightarrow> (Inr content, w1))))"

text \<open>
  \<^verbatim>\<open>with open(p, "w", encoding=enc) as file: file.write(text)\<close>: the call is recorded;
  when opening fails the file system is as before; once opened the file is truncated, and
  it holds the text when the write succeeds.
\<close>

definition write_text :: "path \<Rightarrow> string \<Rightarrow> string \<Rightarrow> world \<Rightarrow> exn option \<times> world" where
  "write_text p enc txt w =
     (let w1 = w\<lparr>io_log := io_log w @ [Open p ''w'' enc]\<rparr> in
      case open_fault w p ''w'' of
        Some e \<Rightarrow> (Some e, w1)
      | None \<Rightarrow>
         (case write_fault w p of
            Some e \<Rightarrow> (Some e, w1\<lparr>files := (files w)(p \<mapsto> [])\<rparr>)
          | None \<Rightarrow> (None, w1\<lparr>files := (files w)(p \<mapsto> txt)\<rparr>)))"

section \<open>Decimal strings\<close>

text \<open>Python's \<^verbatim>\<open>str\<close> on an integer.\<close>

definition digit_char :: "nat \<Rightarrow> char" where
  "digit_char d = ''0123456789'' ! d"

function str_nat :: "nat \<Rightarrow> string" where
  "str_nat n = (if n < 10 then [digit_char n] else str_nat (n div 10) @ [digit_char (n mod 10)])"
  by pat_completeness auto
termination
  by (relation "measure (\<lambda>n. n)") auto

declare str_nat.simps [simp del]

definition str_int :: "int \<Rightarrow> string" where
  "str_int i = (if i < 0 then CHR ''-'' # str_nat (nat (- i)) else str_nat (nat i))"

section \<open>The window: editor, gutter, status bar\<close>

text \<open>
  One record holds the state of the objects of \<^verbatim>\<open>MainWindow\<close>. Of \<^verbatim>\<open>TextEditor\<close>:
  \<open>plain_text\<close> (what \<^verbatim>\<open>toPlainText()\<close> returns), \<open>current_file_path\<close>,
  \<open>show_line_numbers\<close>, \<open>undo_redo_enabled\<close> and the viewport's four margins. Of
  \<^verbatim>\<open>LineNumberArea\<close>: \<open>gutter_width\<close> (its \<^verbatim>\<open>width()\<close>) and \<open>gutter_visible\<close>. Of
  \<^verbatim>\<open>StatusBar\<close>: \<open>file_label\<close> and the last \<^verbatim>\<open>showMessage(text, timeout)\<close>.
  \<open>digit_advance\<close> is \<^verbatim>\<open>fontMetrics().horizontalAdvance("9")\<close>. \<open>env\<close> is the environment.
\<close>

record window =
  plain_text :: string
  current_file_path :: path
  show_line_numbers :: bool
  undo_redo_enabled :: bool
  viewport_margins :: "int \<times> int \<times> int \<times> int"
  gutter_width :: int
  gutter_visible :: bool
  digit_advance :: int
  file_label :: string
  status_message :: "(string \<times> int) option"
  env :: world

text \<open>\<^verbatim>\<open>document().blockCount()\<close>: a document has one block per line of its text.\<close>

definition blockCount :: "string \<Rightarrow> nat" where
  "blockCount t = Suc (length (filter (\<lambda>c. c = CHR 0x0A) t))"

text \<open>\<^verbatim>\<open>LineNumberArea._calculate_width\<close>.\<close>

definition calculate_width :: "int \<Rightarrow> nat \<Rightarrow> int" where
  "calculate_width adv block_count =
     (let digits = length (str_nat (max 1 block_count)) in 10 + int digits * adv)"

text \<open>\<^verbatim>\<open>LineNumberArea.update_width\<close>, the slot of \<^verbatim>\<open>blockCountChanged\<close>.\<close>

definition update_width :: "window \<Rightarrow> window" where
  "update_width s = s\<lparr>gutter_width := calculate_width (digit_advance s) (blockCount (plain_text s))\<rparr>"

text \<open>\<^verbatim>\<open>StatusBar._update_file_label\<close>, a slot of \<^verbatim>\<open>textChanged\<close>.\<close>

definition update_file_label :: "window \<Rightarrow> window" where
  "update_file_label s =
     s\<lparr>file_label := (if current_file_path s \<noteq> [] then current_file_path s else ''No file open'')\<rparr>"

text \<open>
  The editor's text becomes \<open>t\<close> (by \<^verbatim>\<open>setPlainText\<close>, \<^verbatim>\<open>clear\<close> or the user's typing).
  The toolkit then emits \<^verbatim>\<open>blockCountChanged\<close> when the number of blocks differs, and
  \<^verbatim>\<open>textChanged\<close>; the slots the program connected run. The other slot of \<^verbatim>\<open>textChanged\<close>,
  \<^verbatim>\<open>line_number_area.update\<close>, only schedules a repaint.
\<close>

definition text_changed :: "string \<Rightarrow> window \<Rightarrow> window" where
  "text_changed t s =
     (let s1 = s\<lparr>plain_text := t\<rparr>;
          s2 = (if blockCount t \<noteq> blockCount (plain_text s) then update_width s1 else s1)
      in update_file_label s2)"

definition setPlainText :: "string \<Rightarrow> window \<Rightarrow> window" where
  "setPlainText t s = text_changed t s"

definition clear :: "window \<Rightarrow> window" where
  "clear s = text_changed [] s"

definition showMessage :: "string \<Rightarrow> int \<Rightarrow> window \<Rightarrow> window" where
  "showMessage m timeout s = s\<lparr>status_message := Some (m, timeout)\<rparr>"

text \<open>\<^verbatim>\<open>TextEditor.update_margins\<close> and \<^verbatim>\<open>TextEditor.toggle_line_numbers\<close>.\<close>

definition update_margins :: "window \<Rightarrow> window" where
  "update_margins s =
     (let s1 = (if show_line_numbers s
                then s\<lparr>viewport_margins := (gutter_width s, 0, 0, 0)\<rparr>
                else s\<lparr>viewport_margins := (0, 0, 0, 0)\<rparr>)
      in s1\<lparr>gutter_visible := show_line_numbers s\<rparr>)"

definition toggle_line_numbers :: "window \<Rightarrow> window" where
  "toggle_line_numbers s = update_margins (s\<lparr>show_line_numbers := \<not> show_line_numbers s\<rparr>)"

text \<open>
  \<^verbatim>\<open>MainWindow.__init__\<close>: the editor is constructed empty, with no file, line numbers
  shown and undo/redo enabled; the gutter takes its width; the margins are set; the status
  bar's label is computed. The font's digit width and the environment are given.
\<close>

definition init_window :: "int \<Rightarrow> world \<Rightarrow> window" where
  "init_window adv w =
     (let s0 = \<lparr>plain_text = [], current_file_path = [], show_line_numbers = True,
                undo_redo_enabled = True, viewport_margins = (0, 0, 0, 0),
                gutter_width = calculate_width adv (blockCount []), gutter_visible = True,
                digit_advance = adv, file_label = [], status_message = None, env = w\<rparr>
      in update_file_label (update_margins s0))"

section \<open>File operations\<close>

text \<open>
  A file dialog returns the chosen path, empty when the user cancels, or raises; its
  outcome is an argument of the operation that opens it.

  \<^verbatim>\<open>FileMenu._open_file\<close>: everything is inside \<^verbatim>\<open>try\<close>.
\<close>

definition open_file :: "exn + path \<Rightarrow> window \<Rightarrow> exn + window" where
  "open_file dialog s =
     (case dialog of
        Inl e \<Rightarrow> Inr (showMessage (''Error opening file: '' @ str e) 5000 s)
      | Inr file_path \<Rightarrow>
          if file_path \<noteq> [] then
            (case read_text file_path ''utf-8'' (env s) of
               (Inl e, w) \<Rightarrow> Inr (showMessage (''Error opening file: '' @ str e) 5000 (s\<lparr>env := w\<rparr>))
             | (Inr content, w) \<Rightarrow>
                 Inr (showMessage (''Opened: '' @ file_path) 5000
                       ((setPlainText content (s\<lparr>env := w\<rparr>))\<lparr>current_file_path := file_path\<rparr>)))
          else Inr s)"

text \<open>
  \<^verbatim>\<open>MainWindow._save_as_file\<close>: the dialog is outside \<^verbatim>\<open>try\<close>, so its exception escapes;
  opening and writing are inside.
\<close>

definition save_as_file :: "exn + path \<Rightarrow> window \<Rightarrow> exn + window" where
  "save_as_file dialog s =
     (case dialog of
        Inl e \<Rightarrow> Inl e
      | Inr file_path \<Rightarrow>
          if file_path \<noteq> [] then
            (case write_text file_path ''utf-8'' (plain_text s) (env s) of
               (Some e, w) \<Rightarrow> Inr (showMessage (''Error saving file: '' @ str e) 5000 (s\<lparr>env := w\<rparr>))
             | (None, w) \<Rightarrow> Inr (s\<lparr>env := w, current_file_path := file_path\<rparr>))
          else Inr s)"

text \<open>
  \<^verbatim>\<open>MainWindow.save_file\<close>: with a current path the text is written there; without one
  \<^verbatim>\<open>_save_as_file\<close> is called, inside the same \<^verbatim>\<open>try\<close>, so what escapes it is caught here.
\<close>

definition save_file :: "exn + path \<Rightarrow> window \<Rightarrow> exn + window" where
  "save_file dialog s =
     (let txt = plain_text s; file_path = current_file_path s in
      if file_path \<noteq> [] then
        (case write_text file_path ''utf-8'' txt (env s) of
           (Some e, w) \<Rightarrow> Inr (showMessage (''Error saving file: '' @ str e) 5000 (s\<lparr>env := w\<rparr>))
         | (None, w) \<Rightarrow> Inr (s\<lparr>env := w\<rparr>))
      else
        (case save_as_file dialog s of
           Inl e \<Rightarrow> Inr (showMessage (''Error saving file: '' @ str e) 5000 s)
         | Inr s' \<Rightarrow> Inr s'))"

text \<open>\<^verbatim>\<open>MainWindow.new_file\<close>: the text is cleared, then the path is assigned.\<close>

definition new_file :: "exn + path \<Rightarrow> window \<Rightarrow> exn + window" where
  "new_file dialog s =
     (case dialog of
        Inl e \<Rightarrow> Inr (showMessage (''Error creating new file: '' @ str e) 5000 s)
      | Inr file_path \<Rightarrow>
          if file_path \<noteq> [] then Inr ((clear s)\<lparr>current_file_path := file_path\<rparr>)
          else Inr s)"

section \<open>The gutter's paint routine\<close>

text \<open>
  What \<^verbatim>\<open>LineNumberArea.paintEvent\<close> asks of the toolkit is a snapshot of the layout: the
  document's blocks in order, each with \<^verbatim>\<open>isVisible()\<close> and the height of its
  \<^verbatim>\<open>blockBoundingRect\<close>; which block \<^verbatim>\<open>firstVisibleBlock()\<close> is; the top of that block's
  \<^verbatim>\<open>blockBoundingGeometry\<close> translated by \<^verbatim>\<open>contentOffset()\<close>; and
  \<^verbatim>\<open>fontMetrics().height()\<close>. A block is its position in the document, which is what
  \<^verbatim>\<open>blockNumber()\<close> returns; a position past the last block is the invalid block, whose
  number is \<open>-1\<close> and whose bounding rectangle is empty. Coordinates the toolkit gives as
  floating-point numbers are reals here.
\<close>

record block_info =
  isVisible :: bool
  height :: real

record layout =
  blocks :: "block_info list"
  firstVisibleBlock :: nat
  first_top :: real
  font_height :: int

record qrect =
  rect_top :: int
  rect_bottom :: int

datatype colour = LightGray | Black

datatype alignment = AlignLeft

datatype paint_op =
    FillRect qrect colour
  | SetPen colour
  | DrawText int int int int alignment string

definition isValid :: "layout \<Rightarrow> nat \<Rightarrow> bool" where
  "isValid L b = (b < length (blocks L))"

definition blockNumber :: "layout \<Rightarrow> nat \<Rightarrow> int" where
  "blockNumber L b = (if isValid L b then int b else - 1)"

definition block_height :: "layout \<Rightarrow> nat \<Rightarrow> real" where
  "block_height L b = (if isValid L b then height (blocks L ! b) else 0)"

definition block_visible :: "layout \<Rightarrow> nat \<Rightarrow> bool" where
  "block_visible L b = (isValid L b \<and> isVisible (blocks L ! b))"

text \<open>Python's \<^verbatim>\<open>int\<close> on a float truncates towards zero.\<close>

definition py_int :: "real \<Rightarrow> int" where
  "py_int x = (if x < 0 then \<lceil>x\<rceil> else \<lfloor>x\<rfloor>)"

text \<open>
  \<^verbatim>\<open>class TextEditor(QTextEdit)\<close>: the editor's base class is the toolkit's
  \<^verbatim>\<open>QTextEdit\<close>. The four methods the paint routine calls on the editor,
  \<^verbatim>\<open>firstVisibleBlock\<close>, \<^verbatim>\<open>blockBoundingGeometry\<close>, \<^verbatim>\<open>contentOffset\<close> and
  \<^verbatim>\<open>blockBoundingRect\<close>, are methods of the toolkit's \<^verbatim>\<open>QPlainTextEdit\<close>; \<^verbatim>\<open>QTextEdit\<close>
  has none of them, and Python answers a call of a method an object lacks by raising
  \<^verbatim>\<open>AttributeError\<close>, whose text names the object's class and the attribute. Every
  call of one of the four on the editor is an \<open>editor_call\<close>: it gives the toolkit's
  answer when the base class has the method, and raises otherwise.
\<close>

datatype base_class = QTextEdit | QPlainTextEdit

definition TextEditor_base :: base_class where
  "TextEditor_base = QTextEdit"

definition attribute_error :: "string \<Rightarrow> string \<Rightarrow> exn" where
  "attribute_error cls attr =
     Exn ([CHR 0x27] @ cls @ [CHR 0x27] @ '' object has no attribute '' @ [CHR 0x27] @ attr @ [CHR 0x27])"

definition editor_call :: "base_class \<Rightarrow> string \<Rightarrow> 'a \<Rightarrow> exn + 'a" where
  "editor_call base attr answer =
     (case base of
        QPlainTextEdit \<Rightarrow> Inr answer
      | QTextEdit \<Rightarrow> Inl (attribute_error ''TextEditor'' attr))"

text \<open>
  The variables of the \<^verbatim>\<open>while\<close> loop: the block, \<open>top\<close>, \<open>bottom\<close>, \<open>block_number\<close>,
  and what the painter has been asked to do so far.
\<close>

record loop_state =
  block :: nat
  top_y :: real
  bottom_y :: real
  block_number :: int
  painted :: "paint_op list"

text \<open>
  Lines 40 to 43, after the background is filled: the first visible block, its number,
  its top (the first method looked up on the editor in that expression is
  \<^verbatim>\<open>blockBoundingGeometry\<close>) and its bottom.
\<close>

definition paint_start :: "base_class \<Rightarrow> layout \<Rightarrow> qrect \<Rightarrow> exn + loop_state" where
  "paint_start base L r =
     (case editor_call base ''firstVisibleBlock'' (firstVisibleBlock L) of
        Inl e \<Rightarrow> Inl e
      | Inr b \<Rightarrow>
         (case editor_call base ''blockBoundingGeometry'' (first_top L) of
            Inl e \<Rightarrow> Inl e
          | Inr t \<Rightarrow>
             (case editor_call base ''blockBoundingRect'' (block_height L b) of
                Inl e \<Rightarrow> Inl e
              | Inr h \<Rightarrow>
                  Inr \<lparr>block = b, top_y = t, bottom_y = t + h,
                       block_number = blockNumber L b, painted = [FillRect r LightGray]\<rparr>)))"

definition loop_cond :: "layout \<Rightarrow> qrect \<Rightarrow> loop_state \<Rightarrow> bool" where
  "loop_cond L r st = (isValid L (block st) \<and> top_y st \<le> real_of_int (rect_bottom r))"

text \<open>
  One iteration, lines 46 to 61: the number is drawn when the block is visible and its
  bottom is not above the rectangle's top; the block becomes the next one and \<open>top\<close> the
  old \<open>bottom\<close>; then the editor is asked for the new block's bounding rectangle, and when
  that call raises, the iteration ends there, with \<open>bottom\<close> and \<open>block_number\<close> as they
  were.
\<close>

definition loop_body :: "base_class \<Rightarrow> layout \<Rightarrow> qrect \<Rightarrow> int \<Rightarrow> loop_state \<Rightarrow> exn option \<times> loop_state" where
  "loop_body base L r width st =
     (let drawn =
            (if block_visible L (block st) \<and> bottom_y st \<ge> real_of_int (rect_top r)
             then [SetPen Black,
                   DrawText 0 (py_int (top_y st)) width (font_height L) AlignLeft
                     (str_int (block_number st + 1))]
             else []);
          next_block = Suc (block st);
          st1 = st\<lparr>block := next_block, top_y := bottom_y st, painted := painted st @ drawn\<rparr>
      in case editor_call base ''blockBoundingRect'' (block_height L next_block) of
           Inl e \<Rightarrow> (Some e, st1)
         | Inr h \<Rightarrow>
             (None, st1\<lparr>bottom_y := bottom_y st + h, block_number := block_number st + 1\<rparr>))"

text \<open>The \<^verbatim>\<open>while\<close> loop: it ends when its condition fails or an iteration raises.\<close>

function paint_loop :: "base_class \<Rightarrow> layout \<Rightarrow> qrect \<Rightarrow> int \<Rightarrow> loop_state \<Rightarrow> exn option \<times> loop_state" where
  "paint_loop base L r width st =
     (if loop_cond L r st then
        (case loop_body base L r width st of
           (Some e, st') \<Rightarrow> (Some e, st')
         | (None, st') \<Rightarrow> paint_loop base L r width st')
      else (None, st))"
  by pat_completeness auto
termination
  by (relation "measure (\<lambda>(base, L, r, width, st). length (blocks L) - block st)")
     (auto simp: loop_cond_def loop_body_def isValid_def Let_def split: sum.splits)

declare paint_loop.simps [simp del]

text \<open>
  \<^verbatim>\<open>LineNumberArea.paintEvent\<close> for an editor of the given base class: the exception that
  escapes it, if any, and what the painter has been asked to do, in order. The background
  is filled (line 38) before the editor is first asked for a block (line 40).
\<close>

definition paintEvent_on :: "base_class \<Rightarrow> window \<Rightarrow> layout \<Rightarrow> qrect \<Rightarrow> exn option \<times> paint_op list" where
  "paintEvent_on base s L r =
     (if \<not> show_line_numbers s then (None, [])
      else case paint_start base L r of
             Inl e \<Rightarrow> (Some e, [FillRect r LightGray])
           | Inr st \<Rightarrow>
               (case paint_loop base L r (gutter_width s) st of (e, st') \<Rightarrow> (e, painted st')))"

definition paintEvent :: "window \<Rightarrow> layout \<Rightarrow> qrect \<Rightarrow> exn option \<times> paint_op list" where
  "paintEvent s L r = paintEvent_on TextEditor_base s L r"

text \<open>
  For an editor that has the four methods no call raises. \<open>plain_body\<close> and \<open>plain_loop\<close>
  are the state after one iteration and after the loop on such an editor.
\<close>

definition plain_body :: "layout \<Rightarrow> qrect \<Rightarrow> int \<Rightarrow> loop_state \<Rightarrow> loop_state" where
  "plain_body L r width st = snd (loop_body QPlainTextEdit L r width st)"

definition plain_loop :: "layout \<Rightarrow> qrect \<Rightarrow> int \<Rightarrow> loop_state \<Rightarrow> loop_state" where
  "plain_loop L r width st = snd (paint_loop QPlainTextEdit L r width st)"

text \<open>
  The top of block \<open>i\<close> in the gutter's coordinates: the top of the first visible block
  plus the heights of the blocks from it up to \<open>i\<close>.
\<close>

definition block_top :: "layout \<Rightarrow> nat \<Rightarrow> real" where
  "block_top L i = first_top L + sum_list (map (block_height L) [firstVisibleBlock L..<i])"

text \<open>What the loop asks the painter to do for one block.\<close>

definition draw_number :: "layout \<Rightarrow> int \<Rightarrow> nat \<Rightarrow> paint_op list" where
  "draw_number L width i =
     [SetPen Black,
      DrawText 0 (py_int (block_top L i)) width (font_height L) AlignLeft (str_int (int i + 1))]"

section \<open>The states the program reaches\<close>

text \<open>
  From the constructed window, each step is one of the program's handlers, or a change of
  the text by the user's typing, which the toolkit performs and announces by its signals.
\<close>

inductive reachable :: "window \<Rightarrow> bool" where
  start: "reachable (init_window adv w)"
| typing: "reachable s \<Longrightarrow> reachable (text_changed t s)"
| toggled: "reachable s \<Longrightarrow> reachable (toggle_line_numbers s)"
| opened: "reachable s \<Longrightarrow> open_file d s = Inr s' \<Longrightarrow> reachable s'"
| saved: "reachable s \<Longrightarrow> save_file d s = Inr s' \<Longrightarrow> reachable s'"
| saved_as: "reachable s \<Longrightarrow> save_as_file d s = Inr s' \<Longrightarrow> reachable s'"
| created: "reachable s \<Longrightarrow> new_file d s = Inr s' \<Longrightarrow> reachable s'"

text \<open>
  One step of the program itself: a handler the program defines, run to its return. A
  change of the text by typing, undoing or redoing is not among them: the toolkit's widget
  performs it.
\<close>

inductive handler :: "window \<Rightarrow> window \<Rightarrow> bool" where
  by_toggle: "handler s (toggle_line_numbers s)"
| by_open: "open_file d s = Inr s' \<Longrightarrow> handler s s'"
| by_save: "save_file d s = Inr s' \<Longrightarrow> handler s s'"
| by_save_as: "save_as_file d s = Inr s' \<Longrightarrow> handler s s'"
| by_new: "new_file d s = Inr s' \<Longrightarrow> handler s s'"

section \<open>Concrete instances\<close>

text \<open>
  A file system with no file and no fault, one that refuses every write, a window with a
  font whose digits are 8 pixels wide, and a layout of three blocks of height 16.
\<close>

definition empty_world :: world where
  "empty_world =
     \<lparr>files = (\<lambda>p. None), open_fault = (\<lambda>p m. None), read_fault = (\<lambda>p. None),
      write_fault = (\<lambda>p. None), not_found = (\<lambda>p. Exn (''No such file or directory: '' @ p)),
      io_log = []\<rparr>"


definition fresh_window :: window where
  "fresh_window = init_window 8 empty_world"

definition ten_lines :: string where
  "ten_lines = replicate 9 (CHR 0x0A)"

definition three_blocks :: layout where
  "three_blocks =
     \<lparr>blocks = [\<lparr>isVisible = True, height = 16\<rparr>, \<lparr>isVisible = True, height = 16\<rparr>,
                \<lparr>isVisible = True, height = 16\<rparr>],
      firstVisibleBlock = 1, first_top = 0, font_height = 14\<rparr>"

section \<open>Facts about the environment and the toolkit's slots\<close>

lemma read_text_log: "io_log (snd (read_text p enc w)) = io_log w @ [Open p ''r'' enc]"
  by (simp add: read_text_def Let_def split: option.splits)

lemma write_text_log: "io_log (snd (write_text p enc t w)) = io_log w @ [Open p ''w'' enc]"
  by (simp add: write_text_def Let_def split: option.splits)

lemma read_text_logD:
  "read_text p enc w = (r, w') \<Longrightarrow> io_log w' = io_log w @ [Open p ''r'' enc]"
  using read_text_log [of p enc w] by simp

lemma write_text_logD:
  "write_text p enc t w = (r, w') \<Longrightarrow> io_log w' = io_log w @ [Open p ''w'' enc]"
  using write_text_log [of p enc t w] by simp

lemma write_text_ok:
  "open_fault w p ''w'' = None \<Longrightarrow> write_fault w p = None \<Longrightarrow>
   write_text p enc t w
     = (None, w\<lparr>io_log := io_log w @ [Open p ''w'' enc], files := (files w)(p \<mapsto> t)\<rparr>)"
  by (simp add: write_text_def Let_def)

lemma read_text_ok:
  "open_fault w p ''r'' = None \<Longrightarrow> read_fault w p = None \<Longrightarrow> files w p = Some t \<Longrightarrow>
   read_text p enc w = (Inr t, w\<lparr>io_log := io_log w @ [Open p ''r'' enc]\<rparr>)"
  by (simp add: read_text_def Let_def)

lemma plain_text_text_changed: "plain_text (text_changed t s) = t"
  by (simp add: text_changed_def Let_def update_file_label_def update_width_def)

lemma text_changed_frame:
  "current_file_path (text_changed t s) = current_file_path s"
  "env (text_changed t s) = env s"
  "show_line_numbers (text_changed t s) = show_line_numbers s"
  "undo_redo_enabled (text_changed t s) = undo_redo_enabled s"
  "viewport_margins (text_changed t s) = viewport_margins s"
  "gutter_visible (text_changed t s) = gutter_visible s"
  "digit_advance (text_changed t s) = digit_advance s"
  "status_message (text_changed t s) = status_message s"
  by (simp_all add: text_changed_def Let_def update_file_label_def update_width_def)

lemma fresh_window_fields:
  "plain_text fresh_window = []" "current_file_path fresh_window = []"
  "env fresh_window = empty_world" "show_line_numbers fresh_window"
  "file_label fresh_window = ''No file open''"
  by (simp_all add: fresh_window_def init_window_def update_file_label_def update_margins_def
      Let_def)



lemma save_file_returns: "\<exists>s'. save_file d s = Inr s'"
  by (simp add: save_file_def Let_def split: sum.splits option.splits prod.splits)

lemma new_file_returns: "\<exists>s'. new_file d s = Inr s'"
  by (simp add: new_file_def split: sum.splits)

lemma open_file_log:
  "open_file d s = Inr s' \<Longrightarrow>
   \<exists>new. io_log (env s') = io_log (env s) @ new \<and> (\<forall>c\<in>set new. encoding c = ''utf-8'')"
  by (auto simp: open_file_def showMessage_def setPlainText_def text_changed_frame
           split: sum.splits prod.splits if_splits dest!: read_text_logD)

lemma save_as_file_log:
  "save_as_file d s = Inr s' \<Longrightarrow>
   \<exists>new. io_log (env s') = io_log (env s) @ new \<and> (\<forall>c\<in>set new. encoding c = ''utf-8'')"
  by (auto simp: save_as_file_def showMessage_def
           split: sum.splits prod.splits if_splits option.splits dest!: write_text_logD)

lemma save_file_log:
  "save_file d s = Inr s' \<Longrightarrow>
   \<exists>new. io_log (env s') = io_log (env s) @ new \<and> (\<forall>c\<in>set new. encoding c = ''utf-8'')"
  using save_as_file_log [of d s s']
  by (auto simp: save_file_def showMessage_def Let_def
           split: sum.splits prod.splits if_splits option.splits dest!: write_text_logD)

lemma new_file_log:
  "new_file d s = Inr s' \<Longrightarrow> io_log (env s') = io_log (env s)"
  by (auto simp: new_file_def showMessage_def clear_def text_changed_frame
           split: sum.splits if_splits)

section \<open>Saving and opening\<close>

text \<open>
  Claim C1. File I/O passes the text through unchanged. Let \<open>p\<close> be a non-empty path that
  the file system lets the program open for writing, write, open for reading and read.
  Saving to \<open>p\<close> (by Save As choosing \<open>p\<close>, by Save when \<open>p\<close> is the current path, or by Save
  with no current path and the dialog choosing \<open>p\<close>) leaves in the file exactly the
  editor's text. Opening \<open>p\<close> afterwards sets the editor's text to the saved text, both
  at once and after the text in the editor has been changed to anything else.
\<close>

theorem C1_save_then_open:
  assumes "p \<noteq> []"
    and "open_fault (env s) p ''w'' = None" and "write_fault (env s) p = None"
    and "open_fault (env s) p ''r'' = None" and "read_fault (env s) p = None"
  shows "(\<exists>s1. save_as_file (Inr p) s = Inr s1 \<and> files (env s1) p = Some (plain_text s)
            \<and> (\<exists>s2. open_file (Inr p) s1 = Inr s2 \<and> plain_text s2 = plain_text s)
            \<and> (\<forall>t. \<exists>s2. open_file (Inr p) (text_changed t s1) = Inr s2
                        \<and> plain_text s2 = plain_text s))
       \<and> (current_file_path s = p \<longrightarrow>
            (\<exists>s1. save_file d s = Inr s1 \<and> files (env s1) p = Some (plain_text s)
              \<and> (\<exists>s2. open_file (Inr p) s1 = Inr s2 \<and> plain_text s2 = plain_text s)
              \<and> (\<forall>t. \<exists>s2. open_file (Inr p) (text_changed t s1) = Inr s2
                          \<and> plain_text s2 = plain_text s)))
       \<and> (current_file_path s = [] \<longrightarrow>
            (\<exists>s1. save_file (Inr p) s = Inr s1 \<and> files (env s1) p = Some (plain_text s)
              \<and> (\<exists>s2. open_file (Inr p) s1 = Inr s2 \<and> plain_text s2 = plain_text s)
              \<and> (\<forall>t. \<exists>s2. open_file (Inr p) (text_changed t s1) = Inr s2
                          \<and> plain_text s2 = plain_text s)))"
proof -
  let ?w = "(env s)\<lparr>io_log := io_log (env s) @ [Open p ''w'' ''utf-8''],
                      files := (files (env s))(p \<mapsto> plain_text s)\<rparr>"
  have w: "write_text p ''utf-8'' (plain_text s) (env s) = (None, ?w)"
    using assms by (simp add: write_text_ok)
  have r: "read_text p ''utf-8'' ?w
             = (Inr (plain_text s), ?w\<lparr>io_log := io_log ?w @ [Open p ''r'' ''utf-8'']\<rparr>)"
    using assms by (intro read_text_ok) simp_all
  have op: "\<exists>s2. open_file (Inr p) s1 = Inr s2 \<and> plain_text s2 = plain_text s"
    if "env s1 = ?w" for s1
    using assms(1) r that
    by (simp add: open_file_def showMessage_def setPlainText_def plain_text_text_changed)
  have after: "files (env s1) p = Some (plain_text s)
      \<and> (\<exists>s2. open_file (Inr p) s1 = Inr s2 \<and> plain_text s2 = plain_text s)
      \<and> (\<forall>t. \<exists>s2. open_file (Inr p) (text_changed t s1) = Inr s2 \<and> plain_text s2 = plain_text s)"
    if e: "env s1 = ?w" for s1
  proof (intro conjI allI)
    show "files (env s1) p = Some (plain_text s)" using e by simp
    show "\<exists>s2. open_file (Inr p) s1 = Inr s2 \<and> plain_text s2 = plain_text s"
      using e by (rule op)
    fix t
    have "env (text_changed t s1) = ?w" using e by (simp add: text_changed_frame)
    then show "\<exists>s2. open_file (Inr p) (text_changed t s1) = Inr s2 \<and> plain_text s2 = plain_text s"
      by (rule op)
  qed
  have sa: "save_as_file (Inr p) s = Inr (s\<lparr>env := ?w, current_file_path := p\<rparr>)"
    using assms(1) w by (simp add: save_as_file_def)
  have A: "\<exists>s1. save_as_file (Inr p) s = Inr s1 \<and> files (env s1) p = Some (plain_text s)
            \<and> (\<exists>s2. open_file (Inr p) s1 = Inr s2 \<and> plain_text s2 = plain_text s)
            \<and> (\<forall>t. \<exists>s2. open_file (Inr p) (text_changed t s1) = Inr s2
                        \<and> plain_text s2 = plain_text s)"
    using sa after [of "s\<lparr>env := ?w, current_file_path := p\<rparr>"] by simp
  have B: "\<exists>s1. save_file d s = Inr s1 \<and> files (env s1) p = Some (plain_text s)
              \<and> (\<exists>s2. open_file (Inr p) s1 = Inr s2 \<and> plain_text s2 = plain_text s)
              \<and> (\<forall>t. \<exists>s2. open_file (Inr p) (text_changed t s1) = Inr s2
                          \<and> plain_text s2 = plain_text s)"
    if "current_file_path s = p"
  proof -
    have "save_file d s = Inr (s\<lparr>env := ?w\<rparr>)"
      using assms(1) w that by (simp add: save_file_def)
    then show ?thesis using after [of "s\<lparr>env := ?w\<rparr>"] by simp
  qed
  have C: "\<exists>s1. save_file (Inr p) s = Inr s1 \<and> files (env s1) p = Some (plain_text s)
              \<and> (\<exists>s2. open_file (Inr p) s1 = Inr s2 \<and> plain_text s2 = plain_text s)
              \<and> (\<forall>t. \<exists>s2. open_file (Inr p) (text_changed t s1) = Inr s2
                          \<and> plain_text s2 = plain_text s)"
    if "current_file_path s = []"
  proof -
    have "save_file (Inr p) s = Inr (s\<lparr>env := ?w, current_file_path := p\<rparr>)"
      using sa that by (simp add: save_file_def)
    then show ?thesis using after [of "s\<lparr>env := ?w, current_file_path := p\<rparr>"] by simp
  qed
  show ?thesis using A B C by blast
qed

text \<open>
  The text \<open>hello\<close>, typed into the fresh window and saved to \<open>a.txt\<close>; then the editor's
  text is replaced by \<open>something else\<close>, and \<open>a.txt\<close> is opened.
\<close>

theorem C1_save_then_open_witness:
  "(\<exists>s1 s2. save_as_file (Inr ''a.txt'') (text_changed ''hello'' fresh_window) = Inr s1
       \<and> files (env s1) ''a.txt'' = Some ''hello''
       \<and> plain_text (text_changed ''something else'' s1) = ''something else''
       \<and> open_file (Inr ''a.txt'') (text_changed ''something else'' s1) = Inr s2
       \<and> plain_text s2 = ''hello'')
   \<and> (\<exists>s1 s2. save_file (Inr ''a.txt'') (text_changed ''hello'' fresh_window) = Inr s1
       \<and> files (env s1) ''a.txt'' = Some ''hello''
       \<and> open_file (Inr ''a.txt'') (text_changed ''something else'' s1) = Inr s2
       \<and> plain_text s2 = ''hello'')"
proof -
  let ?s = "text_changed ''hello'' fresh_window"
  have h: "''a.txt'' \<noteq> []" "open_fault (env ?s) ''a.txt'' ''w'' = None"
    "write_fault (env ?s) ''a.txt'' = None" "open_fault (env ?s) ''a.txt'' ''r'' = None"
    "read_fault (env ?s) ''a.txt'' = None"
    by (simp_all add: text_changed_frame fresh_window_fields empty_world_def)
  have c: "current_file_path ?s = []" "plain_text ?s = ''hello''"
    by (simp_all add: text_changed_frame plain_text_text_changed fresh_window_fields)
  from C1_save_then_open [OF h, of "Inr ''a.txt''"] c
  obtain s1 s1' where
    1: "save_as_file (Inr ''a.txt'') ?s = Inr s1" "files (env s1) ''a.txt'' = Some ''hello''"
       "\<forall>t. \<exists>s2. open_file (Inr ''a.txt'') (text_changed t s1) = Inr s2 \<and> plain_text s2 = ''hello''"
    and 2: "save_file (Inr ''a.txt'') ?s = Inr s1'" "files (env s1') ''a.txt'' = Some ''hello''"
       "\<forall>t. \<exists>s2. open_file (Inr ''a.txt'') (text_changed t s1') = Inr s2 \<and> plain_text s2 = ''hello''"
    by auto
  from 1(3) obtain s2 where
    "open_file (Inr ''a.txt'') (text_changed ''something else'' s1) = Inr s2 \<and> plain_text s2 = ''hello''"
    by blast
  moreover from 2(3) obtain s2' where
    "open_file (Inr ''a.txt'') (text_changed ''something else'' s1') = Inr s2' \<and> plain_text s2' = ''hello''"
    by blast
  ultimately show ?thesis using 1(1,2) 2(1,2) by (simp add: plain_text_text_changed)
qed

section \<open>Errors of file I/O\<close>



section \<open>The encoding of every open call\<close>

text \<open>
  Claim C3. Whatever Open, Save, Save As or New does, every call of \<^verbatim>\<open>open\<close> it adds to
  the record of calls names the encoding \<open>utf-8\<close>.
\<close>

theorem C3_every_open_is_utf8:
  assumes "open_file d s = Inr s' \<or> save_file d s = Inr s' \<or> save_as_file d s = Inr s'
           \<or> new_file d s = Inr s'"
  shows "\<exists>new. io_log (env s') = io_log (env s) @ new \<and> (\<forall>c\<in>set new. encoding c = ''utf-8'')"
  using assms open_file_log [of d s s'] save_file_log [of d s s'] save_as_file_log [of d s s']
    new_file_log [of d s s']
  by auto

text \<open>Saving the fresh window to \<open>a.txt\<close>.\<close>

theorem C3_every_open_is_utf8_witness:
  "\<exists>s' new. save_file (Inr ''a.txt'') fresh_window = Inr s'
      \<and> io_log (env s') = io_log (env fresh_window) @ new
      \<and> list_all (\<lambda>c. encoding c = ''utf-8'') new"
proof -
  obtain s' where s': "save_file (Inr ''a.txt'') fresh_window = Inr s'"
    using save_file_returns by blast
  then show ?thesis
    using C3_every_open_is_utf8 [of "Inr ''a.txt''" fresh_window s']
    by (auto simp: list_all_iff)
qed

section \<open>A failed open changes nothing\<close>

text \<open>
  Claim C8. When the dialog of Open raises, or the chosen file cannot be opened, does not
  exist or cannot be read, Open returns with the editor's text and the current path as
  they were, and an error message on the status bar.
\<close>

theorem C8_failed_open_keeps_text_and_path:
  assumes "d = Inl e \<or> (\<exists>p. d = Inr p \<and> p \<noteq> [] \<and>
             (open_fault (env s) p ''r'' \<noteq> None \<or> files (env s) p = None
              \<or> read_fault (env s) p \<noteq> None))"
  shows "\<exists>s' m. open_file d s = Inr s' \<and> plain_text s' = plain_text s
           \<and> current_file_path s' = current_file_path s
           \<and> status_message s' = Some (''Error opening file: '' @ m, 5000)"
  using assms
  by (auto simp: open_file_def showMessage_def read_text_def Let_def split: option.splits)

text \<open>Opening a file that does not exist, after typing \<open>hello\<close>.\<close>

theorem C8_failed_open_keeps_text_and_path_witness:
  "\<exists>s' m. open_file (Inr ''missing.txt'') (text_changed ''hello'' fresh_window) = Inr s'
      \<and> plain_text s' = ''hello'' \<and> current_file_path s' = []
      \<and> status_message s' = Some (''Error opening file: '' @ m, 5000)"
  using C8_failed_open_keeps_text_and_path
          [of "Inr ''missing.txt''" "Exn []" "text_changed ''hello'' fresh_window"]
  by (simp add: text_changed_frame plain_text_text_changed fresh_window_fields empty_world_def)

section \<open>Facts about the gutter's width, the toggle and the label\<close>

lemma blockCount_ten_lines: "blockCount ten_lines = 10"
  by (simp add: blockCount_def ten_lines_def)

lemma blockCount_Nil: "blockCount [] = 1"
  by (simp add: blockCount_def)

lemma str_nat_digit: "n < 10 \<Longrightarrow> str_nat n = [digit_char n]"
  by (subst str_nat.simps) simp

lemma str_nat_10: "str_nat 10 = [digit_char 1, digit_char 0]"
  by (subst str_nat.simps) (simp add: str_nat_digit)

lemma calculate_width_1: "calculate_width adv (Suc 0) = 10 + adv"
  by (simp add: calculate_width_def str_nat_digit)

lemma calculate_width_10: "calculate_width adv 10 = 10 + 2 * adv"
  by (simp add: calculate_width_def str_nat_10)

lemma fresh_window_gutter:
  "gutter_width fresh_window = 18" "viewport_margins fresh_window = (18, 0, 0, 0)"
  "gutter_visible fresh_window" "digit_advance fresh_window = 8"
  "undo_redo_enabled fresh_window"
  by (simp_all add: fresh_window_def init_window_def update_file_label_def update_margins_def
      Let_def blockCount_Nil calculate_width_1)

lemma gutter_width_ten_lines: "gutter_width (text_changed ten_lines fresh_window) = 26"
  by (simp add: text_changed_def Let_def update_file_label_def update_width_def
      blockCount_ten_lines blockCount_Nil fresh_window_fields fresh_window_gutter calculate_width_10)

lemma toggle_fields:
  "show_line_numbers (toggle_line_numbers s) = (\<not> show_line_numbers s)"
  "gutter_visible (toggle_line_numbers s) = (\<not> show_line_numbers s)"
  "viewport_margins (toggle_line_numbers s)
     = (if show_line_numbers s then (0, 0, 0, 0) else (gutter_width s, 0, 0, 0))"
  "gutter_width (toggle_line_numbers s) = gutter_width s"
  "file_label (toggle_line_numbers s) = file_label s"
  "plain_text (toggle_line_numbers s) = plain_text s"
  "current_file_path (toggle_line_numbers s) = current_file_path s"
  "undo_redo_enabled (toggle_line_numbers s) = undo_redo_enabled s"
  by (simp_all add: toggle_line_numbers_def update_margins_def Let_def)

lemma toggle_undo: "undo_redo_enabled (toggle_line_numbers s) = undo_redo_enabled s"
  by (simp add: toggle_line_numbers_def update_margins_def Let_def)

lemma showMessage_undo: "undo_redo_enabled (showMessage m t s) = undo_redo_enabled s"
  by (simp add: showMessage_def)

lemma open_file_undo: "open_file d s = Inr s' \<Longrightarrow> undo_redo_enabled s' = undo_redo_enabled s"
  by (auto simp: open_file_def showMessage_undo setPlainText_def text_changed_frame
      split: sum.splits prod.splits if_splits)

lemma save_as_file_undo:
  "save_as_file d s = Inr s' \<Longrightarrow> undo_redo_enabled s' = undo_redo_enabled s"
  by (auto simp: save_as_file_def showMessage_undo
      split: sum.splits prod.splits if_splits option.splits)

lemma save_file_undo: "save_file d s = Inr s' \<Longrightarrow> undo_redo_enabled s' = undo_redo_enabled s"
  by (auto simp: save_file_def showMessage_undo Let_def dest: save_as_file_undo
      split: sum.splits prod.splits if_splits option.splits)

lemma new_file_undo: "new_file d s = Inr s' \<Longrightarrow> undo_redo_enabled s' = undo_redo_enabled s"
  by (auto simp: new_file_def showMessage_undo clear_def text_changed_frame
      split: sum.splits if_splits)

lemma init_undo: "undo_redo_enabled (init_window adv w)"
  by (simp add: init_window_def update_file_label_def update_margins_def Let_def)




lemma read_text_Inr: "read_text p enc w = (Inr c, w') \<Longrightarrow> files w p = Some c"
  by (auto simp: read_text_def Let_def split: option.splits)

lemma open_file_text:
  "open_file d s = Inr s' \<Longrightarrow>
   plain_text s' = plain_text s \<or> (\<exists>p. files (env s) p = Some (plain_text s'))"
  by (auto simp: open_file_def showMessage_def setPlainText_def plain_text_text_changed
      split: sum.splits prod.splits if_splits dest: read_text_Inr)

lemma save_as_file_text: "save_as_file d s = Inr s' \<Longrightarrow> plain_text s' = plain_text s"
  by (auto simp: save_as_file_def showMessage_def
      split: sum.splits prod.splits if_splits option.splits)

lemma save_file_text: "save_file d s = Inr s' \<Longrightarrow> plain_text s' = plain_text s"
  by (auto simp: save_file_def showMessage_def Let_def dest: save_as_file_text
      split: sum.splits prod.splits if_splits option.splits)

lemma new_file_text:
  "new_file d s = Inr s' \<Longrightarrow> plain_text s' = plain_text s \<or> plain_text s' = []"
  by (auto simp: new_file_def showMessage_def clear_def plain_text_text_changed
      split: sum.splits if_splits)

lemma open_file_gutter:
  "open_file d s = Inr s' \<Longrightarrow>
   show_line_numbers s' = show_line_numbers s \<and> gutter_visible s' = gutter_visible s"
  by (auto simp: open_file_def showMessage_def setPlainText_def text_changed_frame
      split: sum.splits prod.splits if_splits)

lemma save_as_file_gutter:
  "save_as_file d s = Inr s' \<Longrightarrow>
   show_line_numbers s' = show_line_numbers s \<and> gutter_visible s' = gutter_visible s"
  by (auto simp: save_as_file_def showMessage_def
      split: sum.splits prod.splits if_splits option.splits)

lemma save_file_gutter:
  "save_file d s = Inr s' \<Longrightarrow>
   show_line_numbers s' = show_line_numbers s \<and> gutter_visible s' = gutter_visible s"
  by (auto simp: save_file_def showMessage_def Let_def dest: save_as_file_gutter
      split: sum.splits prod.splits if_splits option.splits)

lemma new_file_gutter:
  "new_file d s = Inr s' \<Longrightarrow>
   show_line_numbers s' = show_line_numbers s \<and> gutter_visible s' = gutter_visible s"
  by (auto simp: new_file_def showMessage_def clear_def text_changed_frame
      split: sum.splits if_splits)

lemma init_window_gutter:
  "show_line_numbers (init_window adv w)" "gutter_visible (init_window adv w)"
  by (simp_all add: init_window_def update_file_label_def update_margins_def Let_def)

lemma reachable_visible_is_flag: "reachable s \<Longrightarrow> gutter_visible s = show_line_numbers s"
proof (induction rule: reachable.induct)
  case (start adv w)
  show ?case by (simp add: init_window_gutter)
next
  case (typing s t)
  then show ?case by (simp add: text_changed_frame)
next
  case (toggled s)
  show ?case by (simp add: toggle_fields)
next
  case (opened s d s')
  then show ?case using open_file_gutter [of d s s'] by simp
next
  case (saved s d s')
  then show ?case using save_file_gutter [of d s s'] by simp
next
  case (saved_as s d s')
  then show ?case using save_as_file_gutter [of d s s'] by simp
next
  case (created s d s')
  then show ?case using new_file_gutter [of d s s'] by simp
qed

lemma ten_lines_reachable: "reachable (text_changed ten_lines fresh_window)"
  unfolding fresh_window_def by (intro reachable.typing reachable.start)

lemma toggle_twice_restores:
  "show_line_numbers (toggle_line_numbers (toggle_line_numbers s)) = show_line_numbers s"
  "gutter_visible s = show_line_numbers s \<Longrightarrow>
     gutter_visible (toggle_line_numbers (toggle_line_numbers s)) = gutter_visible s"
  "viewport_margins s = (if show_line_numbers s then (gutter_width s, 0, 0, 0) else (0, 0, 0, 0)) \<Longrightarrow>
     viewport_margins (toggle_line_numbers (toggle_line_numbers s)) = viewport_margins s"
  by (simp_all add: toggle_fields)

section \<open>The margin and the gutter's width\<close>

text \<open>
  Claim C5, evaluated where it fails. The window is constructed with a font whose digits
  are 8 pixels wide, and the user types nine line breaks, so that the document has ten
  blocks. \<^verbatim>\<open>blockCountChanged\<close> runs \<^verbatim>\<open>update_width\<close>, which resizes the gutter to 26 and
  does not touch the margins: line numbers are shown, the gutter is visible, and the
  viewport's left margin is still 18.
\<close>

theorem C5_margin_stale_after_width_change:
  "show_line_numbers (text_changed ten_lines fresh_window)
   \<and> gutter_visible (text_changed ten_lines fresh_window)
   \<and> viewport_margins (text_changed ten_lines fresh_window) = (18, 0, 0, 0)
   \<and> gutter_width (text_changed ten_lines fresh_window) = 26"
  by (simp add: text_changed_frame fresh_window_fields fresh_window_gutter gutter_width_ten_lines)

section \<open>Toggling the line numbers twice\<close>

text \<open>
  Claim C9, evaluated where it fails. In the state above, reached by typing nine line
  breaks into the constructed window, the left margin is 18 and the gutter's width 26;
  toggling twice returns to shown line numbers and a visible gutter, and leaves the left
  margin at 26. The flag is restored from every state, the visibility from every state
  the program reaches, and the margins wherever they agreed with the gutter's width
  (\<open>toggle_twice_restores\<close>, \<open>reachable_visible_is_flag\<close>); the state is one the program
  reaches (\<open>ten_lines_reachable\<close>). What breaks the involution is the margin that
  \<^verbatim>\<open>update_width\<close> left behind.
\<close>

theorem C9_toggle_twice_moves_stale_margin:
  "show_line_numbers (toggle_line_numbers (toggle_line_numbers (text_changed ten_lines fresh_window)))
       = show_line_numbers (text_changed ten_lines fresh_window)
   \<and> gutter_visible (toggle_line_numbers (toggle_line_numbers (text_changed ten_lines fresh_window)))
       = gutter_visible (text_changed ten_lines fresh_window)
   \<and> viewport_margins (text_changed ten_lines fresh_window) = (18, 0, 0, 0)
   \<and> viewport_margins (toggle_line_numbers (toggle_line_numbers (text_changed ten_lines fresh_window)))
       = (26, 0, 0, 0)"
  by (simp add: toggle_fields text_changed_frame fresh_window_fields fresh_window_gutter
      gutter_width_ten_lines)

section \<open>Undo and redo\<close>

text \<open>
  Claim C7. The editor enables the widget's undo/redo at construction, and the setting
  holds in every state the program reaches. The program has no undo, redo or history of
  its own: a handler of the program never changes the setting, and never brings back an
  earlier text, for it leaves the editor's text as it is, or empties it (New), or sets
  it to the content of a file (Open). Every other change of the text, undoing and redoing
  among them, is the toolkit widget's.
\<close>

theorem C7_undo_redo_delegated:
  "undo_redo_enabled (init_window adv w)
   \<and> (reachable s \<longrightarrow> undo_redo_enabled s)
   \<and> (handler s s' \<longrightarrow>
        undo_redo_enabled s' = undo_redo_enabled s
        \<and> (plain_text s' = plain_text s \<or> plain_text s' = []
            \<or> (\<exists>p. files (env s) p = Some (plain_text s'))))"
proof -
  have inv: "undo_redo_enabled s" if "reachable s"
    using that
  proof (induction rule: reachable.induct)
    case (start adv w)
    show ?case by (rule init_undo)
  next
    case (typing s t)
    then show ?case by (simp add: text_changed_frame)
  next
    case (toggled s)
    then show ?case by (simp add: toggle_undo)
  next
    case (opened s d s')
    then show ?case using open_file_undo [of d s s'] by simp
  next
    case (saved s d s')
    then show ?case using save_file_undo [of d s s'] by simp
  next
    case (saved_as s d s')
    then show ?case using save_as_file_undo [of d s s'] by simp
  next
    case (created s d s')
    then show ?case using new_file_undo [of d s s'] by simp
  qed
  have step: "undo_redo_enabled s' = undo_redo_enabled s
        \<and> (plain_text s' = plain_text s \<or> plain_text s' = []
            \<or> (\<exists>p. files (env s) p = Some (plain_text s')))" if "handler s s'"
    using that
  proof (cases rule: handler.cases)
    case by_toggle
    then show ?thesis by (simp add: toggle_fields)
  next
    case (by_open d)
    then show ?thesis using open_file_undo [of d s s'] open_file_text [of d s s'] by blast
  next
    case (by_save d)
    then show ?thesis using save_file_undo [of d s s'] save_file_text [of d s s'] by blast
  next
    case (by_save_as d)
    then show ?thesis using save_as_file_undo [of d s s'] save_as_file_text [of d s s'] by blast
  next
    case (by_new d)
    then show ?thesis using new_file_undo [of d s s'] new_file_text [of d s s'] by blast
  qed
  show ?thesis using inv step by (simp add: init_undo)
qed

text \<open>
  Typing \<open>abc\<close> into the constructed window, then New with the path \<open>n.txt\<close>: the setting
  is kept, and the text is emptied.
\<close>

theorem C7_undo_redo_delegated_witness:
  "undo_redo_enabled (init_window 8 empty_world)
   \<and> undo_redo_enabled (text_changed ''abc'' (init_window 8 empty_world))
   \<and> (\<exists>s'. new_file (Inr ''n.txt'') (text_changed ''abc'' (init_window 8 empty_world)) = Inr s'
         \<and> undo_redo_enabled s' \<and> plain_text s' = [])"
proof -
  let ?s = "text_changed ''abc'' (init_window 8 empty_world)"
  have r: "reachable ?s" by (intro reachable.typing reachable.start)
  obtain s' where n: "new_file (Inr ''n.txt'') ?s = Inr s'"
    using new_file_returns by blast
  then have h: "handler ?s s'" by (rule handler.by_new)
  have t: "plain_text s' = []"
    using n by (auto simp: new_file_def clear_def plain_text_text_changed)
  from C7_undo_redo_delegated [of 8 empty_world ?s s'] r h
  have "undo_redo_enabled (init_window 8 empty_world)" "undo_redo_enabled ?s"
    "undo_redo_enabled s' = undo_redo_enabled ?s"
    by simp_all
  then show ?thesis using n t by simp
qed

section \<open>The status bar's file label\<close>




section \<open>Facts about the paint loop\<close>

lemma block_top_first: "block_top L (firstVisibleBlock L) = first_top L"
  by (simp add: block_top_def)

lemma block_top_Suc:
  "firstVisibleBlock L \<le> i \<Longrightarrow> block_top L (Suc i) = block_top L i + block_height L i"
  by (simp add: block_top_def)

lemma block_height_nonneg:
  "\<forall>b\<in>set (blocks L). 0 \<le> height b \<Longrightarrow> 0 \<le> block_height L i"
  by (simp add: block_height_def isValid_def)

lemma block_top_mono:
  assumes "\<forall>b\<in>set (blocks L). 0 \<le> height b" and "firstVisibleBlock L \<le> i" and "i \<le> j"
  shows "block_top L i \<le> block_top L j"
  using assms(3,2)
proof (induction j rule: dec_induct)
  case base
  show ?case by simp
next
  case (step k)
  then have "block_top L (Suc k) = block_top L k + block_height L k"
    by (simp add: block_top_Suc)
  with step block_height_nonneg [OF assms(1), of k] show ?case by simp
qed

lemma takeWhile_filter_downward:
  "sorted_wrt (\<lambda>x y. P y \<longrightarrow> P x) xs \<Longrightarrow> takeWhile P xs = filter P xs"
  by (induction xs) (auto simp: filter_empty_conv)

lemma editor_call_plain: "editor_call QPlainTextEdit attr v = Inr v"
  by (simp add: editor_call_def)

lemma editor_call_TextEditor:
  "editor_call TextEditor_base attr v = Inl (attribute_error ''TextEditor'' attr)"
  by (simp add: editor_call_def TextEditor_base_def)

lemma loop_body_plain: "loop_body QPlainTextEdit L r w st = (None, plain_body L r w st)"
  by (simp add: plain_body_def loop_body_def Let_def editor_call_plain)

lemma plain_body_fields:
  "block (plain_body L r w st) = Suc (block st)"
  "top_y (plain_body L r w st) = bottom_y st"
  "bottom_y (plain_body L r w st) = bottom_y st + block_height L (Suc (block st))"
  "block_number (plain_body L r w st) = block_number st + 1"
  "painted (plain_body L r w st) = painted st @
     (if block_visible L (block st) \<and> real_of_int (rect_top r) \<le> bottom_y st
      then [SetPen Black,
            DrawText 0 (py_int (top_y st)) w (font_height L) AlignLeft (str_int (block_number st + 1))]
      else [])"
  by (simp_all add: plain_body_def loop_body_def Let_def editor_call_plain)

lemma paint_loop_plain: "paint_loop QPlainTextEdit L r w st = (None, plain_loop L r w st)"
proof (induction "length (blocks L) - block st" arbitrary: st rule: less_induct)
  case less
  show ?case
  proof (cases "loop_cond L r st")
    case False
    then show ?thesis by (simp add: plain_loop_def paint_loop.simps [of _ _ _ _ st])
  next
    case True
    then have "length (blocks L) - block (plain_body L r w st) < length (blocks L) - block st"
      by (auto simp: loop_cond_def isValid_def plain_body_fields)
    from less [OF this] True show ?thesis
      by (simp add: plain_loop_def paint_loop.simps [of _ _ _ _ st] loop_body_plain)
  qed
qed

lemma plain_loop_unfold:
  "plain_loop L r w st = (if loop_cond L r st then plain_loop L r w (plain_body L r w st) else st)"
  by (simp add: plain_loop_def paint_loop.simps [of _ _ _ _ st] loop_body_plain)

lemma plain_loop_induct:
  assumes "\<And>st. (loop_cond L r st \<Longrightarrow> P (plain_body L r w st)) \<Longrightarrow> P st"
  shows "P st"
proof (induction "length (blocks L) - block st" arbitrary: st rule: less_induct)
  case less
  show ?case
  proof (rule assms)
    assume "loop_cond L r st"
    then have "length (blocks L) - block (plain_body L r w st) < length (blocks L) - block st"
      by (auto simp: loop_cond_def isValid_def plain_body_fields)
    then show "P (plain_body L r w st)" by (rule less)
  qed
qed

lemma paint_loop_TextEditor:
  "paint_loop TextEditor_base L r w st =
     (if loop_cond L r st then loop_body TextEditor_base L r w st else (None, st))"
  by (simp add: paint_loop.simps [of _ _ _ _ st] loop_body_def Let_def editor_call_TextEditor)

lemma plain_loop_painted:
  assumes "firstVisibleBlock L \<le> block st"
    and "top_y st = block_top L (block st)"
    and "bottom_y st = top_y st + block_height L (block st)"
    and "isValid L (block st) \<longrightarrow> block_number st = int (block st)"
  shows "painted (plain_loop L r w st)
     = painted st @ concat (map (draw_number L w)
         (filter (\<lambda>i. block_visible L i \<and> real_of_int (rect_top r) \<le> block_top L i + block_height L i)
           (takeWhile (\<lambda>i. block_top L i \<le> real_of_int (rect_bottom r))
              [block st..<length (blocks L)])))"
  using assms
proof (induction st rule: plain_loop_induct [where L = L and r = r and w = w])
  case (1 st)
  show ?case
  proof (cases "loop_cond L r st")
    case False
    then have "takeWhile (\<lambda>i. block_top L i \<le> real_of_int (rect_bottom r))
                 [block st..<length (blocks L)] = []"
      using "1.prems"(2) by (cases "block st < length (blocks L)")
        (simp_all add: loop_cond_def isValid_def upt_conv_Cons)
    with False show ?thesis by (subst plain_loop_unfold) simp
  next
    case True
    let ?st' = "plain_body L r w st"
    have valid: "block st < length (blocks L)" and top: "block_top L (block st) \<le> real_of_int (rect_bottom r)"
      using True "1.prems"(2) by (simp_all add: loop_cond_def isValid_def)
    have num: "block_number st = int (block st)"
      using valid "1.prems"(4) by (simp add: isValid_def)
    have f: "firstVisibleBlock L \<le> block ?st'"
      and t: "top_y ?st' = block_top L (block ?st')"
      and b: "bottom_y ?st' = top_y ?st' + block_height L (block ?st')"
      and n: "isValid L (block ?st') \<longrightarrow> block_number ?st' = int (block ?st')"
      using "1.prems" num by (simp_all add: plain_body_fields block_top_Suc)
    have bl: "block ?st' = Suc (block st)"
      by (simp add: plain_body_fields)
    have p: "painted ?st' = painted st @
        (if block_visible L (block st)
            \<and> real_of_int (rect_top r) \<le> block_top L (block st) + block_height L (block st)
         then draw_number L w (block st) else [])"
      using "1.prems"(2,3) num by (simp add: plain_body_fields draw_number_def)
    have "painted (plain_loop L r w st) = painted (plain_loop L r w ?st')"
      using True by (subst plain_loop_unfold) simp
    also have "\<dots> = painted ?st' @ concat (map (draw_number L w)
         (filter (\<lambda>i. block_visible L i \<and> real_of_int (rect_top r) \<le> block_top L i + block_height L i)
           (takeWhile (\<lambda>i. block_top L i \<le> real_of_int (rect_bottom r))
              [block ?st'..<length (blocks L)])))"
      using "1.IH" [OF True f t b n] .
    finally show ?thesis
      using valid top by (simp add: p bl upt_conv_Cons)
  qed
qed

lemma three_blocks_fields:
  "firstVisibleBlock three_blocks = 1" "length (blocks three_blocks) = 3"
  "first_top three_blocks = 0" "font_height three_blocks = 14"
  by (simp_all add: three_blocks_def)

lemma three_blocks_heights:
  "block_height three_blocks (Suc 0) = 16" "block_height three_blocks 2 = 16"
  "block_visible three_blocks (Suc 0)" "block_visible three_blocks 2"
  by (simp_all add: three_blocks_def block_height_def block_visible_def isValid_def)

lemma three_blocks_nonneg: "\<forall>b\<in>set (blocks three_blocks). 0 \<le> height b"
  by (simp add: three_blocks_def)

lemma three_blocks_tops:
  "block_top three_blocks (Suc 0) = 0" "block_top three_blocks 2 = 16"
proof -
  show "block_top three_blocks (Suc 0) = 0"
    by (simp add: block_top_def three_blocks_fields)
  have "block_top three_blocks (Suc (Suc 0)) = 16"
    by (subst block_top_Suc) (simp_all add: three_blocks_fields three_blocks_heights block_top_def)
  then show "block_top three_blocks 2 = 16" by (simp add: numeral_2_eq_2)
qed

lemma upt_1_3: "[Suc 0..<3] = [Suc 0, 2]"
  by (simp add: upt_rec numeral_2_eq_2 numeral_3_eq_3)

lemma str_int_small: "str_int 2 = ''2''" "str_int 3 = ''3''"
  by (simp_all add: str_int_def str_nat_digit digit_char_def)

lemma plain_loop_iterates:
  "\<exists>n\<le>length (blocks L) - block st.
      plain_loop L r w st = (plain_body L r w ^^ n) st
      \<and> (\<forall>k<n. loop_cond L r ((plain_body L r w ^^ k) st))
      \<and> \<not> loop_cond L r ((plain_body L r w ^^ n) st)"
proof (induction st rule: plain_loop_induct [where L = L and r = r and w = w])
  case (1 st)
  show ?case
  proof (cases "loop_cond L r st")
    case False
    then have "plain_loop L r w st = st" by (subst plain_loop_unfold) simp
    with False show ?thesis by (intro exI [of _ 0]) simp
  next
    case True
    let ?f = "plain_body L r w"
    from "1.IH" [OF True] obtain n where n: "n \<le> length (blocks L) - block (?f st)"
      and eq: "plain_loop L r w (?f st) = (?f ^^ n) (?f st)"
      and run: "\<forall>k<n. loop_cond L r ((?f ^^ k) (?f st))"
      and stop: "\<not> loop_cond L r ((?f ^^ n) (?f st))"
      by blast
    have valid: "block st < length (blocks L)"
      using True by (simp add: loop_cond_def isValid_def)
    have 1: "Suc n \<le> length (blocks L) - block st"
      using n valid by (simp add: plain_body_fields)
    have 2: "plain_loop L r w st = (?f ^^ Suc n) st"
      using True eq by (subst plain_loop_unfold) (simp add: funpow_swap1)
    have 3: "\<forall>k<Suc n. loop_cond L r ((?f ^^ k) st)"
    proof (intro allI impI)
      fix k assume "k < Suc n"
      then show "loop_cond L r ((?f ^^ k) st)"
        using True run by (cases k) (simp_all add: funpow_swap1)
    qed
    have 4: "\<not> loop_cond L r ((?f ^^ Suc n) st)"
      using stop by (simp add: funpow_swap1)
    show ?thesis using 1 2 3 4 by blast
  qed
qed

lemma funpow_plain_body:
  "block ((plain_body L r w ^^ n) st) = block st + n"
  "block_number ((plain_body L r w ^^ n) st) = block_number st + int n"
  by (induction n) (simp_all add: plain_body_fields)

lemma paint_start_plain:
  "paint_start QPlainTextEdit L r =
     Inr \<lparr>block = firstVisibleBlock L, top_y = first_top L,
          bottom_y = first_top L + block_height L (firstVisibleBlock L),
          block_number = blockNumber L (firstVisibleBlock L), painted = [FillRect r LightGray]\<rparr>"
  by (simp add: paint_start_def editor_call_plain)

lemma paint_start_TextEditor:
  "paint_start TextEditor_base L r = Inl (attribute_error ''TextEditor'' ''firstVisibleBlock'')"
  by (simp add: paint_start_def editor_call_TextEditor)

section \<open>What the gutter paints\<close>

text \<open>
  For an editor whose base class has the block methods, the routine does what it is
  written for: with line numbers shown and no block of negative height, it fills the
  repaint rectangle and then, for each block from the first visible one on that is
  visible, whose top is not below the rectangle's bottom and whose bottom is not above the
  rectangle's top, in block order, sets the pen and draws the decimal string of the
  block's number plus one at the block's top.
\<close>

lemma paintEvent_on_QPlainTextEdit:
  assumes "show_line_numbers s" and "\<forall>b\<in>set (blocks L). 0 \<le> height b"
  shows "paintEvent_on QPlainTextEdit s L r = (None, FillRect r LightGray #
     concat (map (draw_number L (gutter_width s))
       (filter (\<lambda>i. block_visible L i \<and> block_top L i \<le> real_of_int (rect_bottom r)
                  \<and> real_of_int (rect_top r) \<le> block_top L i + block_height L i)
          [firstVisibleBlock L..<length (blocks L)])))"
proof -
  let ?P = "\<lambda>i. block_top L i \<le> real_of_int (rect_bottom r)"
  let ?Q = "\<lambda>i. block_visible L i \<and> real_of_int (rect_top r) \<le> block_top L i + block_height L i"
  let ?xs = "[firstVisibleBlock L..<length (blocks L)]"
  have "sorted_wrt (<) ?xs" by simp
  then have "sorted_wrt (\<lambda>i j. ?P j \<longrightarrow> ?P i) ?xs"
  proof (rule sorted_wrt_mono_rel [rotated])
    fix i j assume "i \<in> set ?xs" "j \<in> set ?xs" "i < j"
    then have "block_top L i \<le> block_top L j"
      using block_top_mono [OF assms(2), of i j] by simp
    then show "?P j \<longrightarrow> ?P i" by simp
  qed
  then have tw: "takeWhile ?P ?xs = filter ?P ?xs"
    by (rule takeWhile_filter_downward)
  let ?st = "\<lparr>block = firstVisibleBlock L, top_y = first_top L,
          bottom_y = first_top L + block_height L (firstVisibleBlock L),
          block_number = blockNumber L (firstVisibleBlock L), painted = [FillRect r LightGray]\<rparr>"
  have "painted (plain_loop L r (gutter_width s) ?st)
      = painted ?st @ concat (map (draw_number L (gutter_width s))
          (filter ?Q (takeWhile ?P [block ?st..<length (blocks L)])))"
    by (rule plain_loop_painted) (simp_all add: block_top_first blockNumber_def)
  then have "paintEvent_on QPlainTextEdit s L r = (None, FillRect r LightGray #
      concat (map (draw_number L (gutter_width s)) (filter ?Q (filter ?P ?xs))))"
    using assms(1) tw by (simp add: paintEvent_on_def paint_start_plain paint_loop_plain)
  also have "filter ?Q (filter ?P ?xs) = filter (\<lambda>i. block_visible L i \<and> ?P i
                  \<and> real_of_int (rect_top r) \<le> block_top L i + block_height L i) ?xs"
    by (auto intro: filter_cong)
  finally show ?thesis .
qed

text \<open>Three blocks of height 16, the second the first visible one, repainting rows 0 to 20.\<close>

text \<open>Three blocks of height 16, the second the first visible one, repainting rows 0 to 20.\<close>

lemma paintEvent_on_QPlainTextEdit_three_blocks:
  "paintEvent_on QPlainTextEdit fresh_window three_blocks \<lparr>rect_top = 0, rect_bottom = 20\<rparr>
     = (None, [FillRect \<lparr>rect_top = 0, rect_bottom = 20\<rparr> LightGray,
        SetPen Black, DrawText 0 0 18 14 AlignLeft ''2'',
        SetPen Black, DrawText 0 16 18 14 AlignLeft ''3''])"
  using paintEvent_on_QPlainTextEdit [of fresh_window three_blocks "\<lparr>rect_top = 0, rect_bottom = 20\<rparr>"]
  by (simp add: fresh_window_fields fresh_window_gutter three_blocks_nonneg three_blocks_fields
      upt_1_3 three_blocks_heights three_blocks_tops draw_number_def py_int_def str_int_small)

text \<open>
  Claim C4, evaluated where it fails. The program's editor is a \<^verbatim>\<open>QTextEdit\<close>: for the
  constructed window, which shows line numbers, and the same three blocks, the routine
  fills the background, and its first question to the editor raises
  \<^verbatim>\<open>AttributeError\<close>. No number is drawn.
\<close>

theorem C4_paintEvent_draws_no_number:
  "paintEvent fresh_window three_blocks \<lparr>rect_top = 0, rect_bottom = 20\<rparr>
     = (Some (attribute_error ''TextEditor'' ''firstVisibleBlock''),
        [FillRect \<lparr>rect_top = 0, rect_bottom = 20\<rparr> LightGray])"
  by (simp add: paintEvent_def paintEvent_on_def paint_start_TextEditor fresh_window_fields)

section \<open>The paint loop\<close>

text \<open>
  On an editor that has the block methods the loop is as it is written: a finite number
  \<open>n\<close> of iterations, at most the number of blocks from the starting block to the end of
  the document, each moving to the next block and adding one to the number; its condition
  holds before each of them; no exception is raised; and it stops in a state whose block is
  invalid or has its top below the rectangle's bottom.
\<close>

lemma plain_loop_terminates:
  "\<exists>n\<le>length (blocks L) - block st.
        paint_loop QPlainTextEdit L r w st = (None, (plain_body L r w ^^ n) st)
        \<and> (\<forall>k<n. loop_cond L r ((plain_body L r w ^^ k) st))
        \<and> block (plain_loop L r w st) = block st + n
        \<and> block_number (plain_loop L r w st) = block_number st + int n
        \<and> (\<not> isValid L (block (plain_loop L r w st))
            \<or> real_of_int (rect_bottom r) < top_y (plain_loop L r w st))"
proof -
  obtain n where n: "n \<le> length (blocks L) - block st"
    and eq: "plain_loop L r w st = (plain_body L r w ^^ n) st"
    and run: "\<forall>k<n. loop_cond L r ((plain_body L r w ^^ k) st)"
    and stop: "\<not> loop_cond L r ((plain_body L r w ^^ n) st)"
    using plain_loop_iterates [of L st r w] by blast
  have "\<not> isValid L (block (plain_loop L r w st))
            \<or> real_of_int (rect_bottom r) < top_y (plain_loop L r w st)"
    using stop eq by (auto simp: loop_cond_def)
  then show ?thesis
    using n eq run by (auto simp: paint_loop_plain funpow_plain_body)
qed

text \<open>
  Claim C6, evaluated where it fails. In the program the loop drives nothing. Whenever
  line numbers are shown, whatever the document and the repaint rectangle, the routine
  ends by the \<^verbatim>\<open>AttributeError\<close> of line 40, after the fill and before the loop is
  reached. And the loop itself, started on the program's editor in any state in which its
  condition holds, ends in its first iteration by the \<^verbatim>\<open>AttributeError\<close> of line 60,
  not by its condition.
\<close>

theorem C6_paint_loop_never_runs:
  "paintEvent (s\<lparr>show_line_numbers := True\<rparr>) L r
     = (Some (attribute_error ''TextEditor'' ''firstVisibleBlock''), [FillRect r LightGray])
   \<and> fst (paint_loop TextEditor_base L r w st)
     = (if loop_cond L r st then Some (attribute_error ''TextEditor'' ''blockBoundingRect'')
        else None)"
  by (simp add: paintEvent_def paintEvent_on_def paint_start_TextEditor paint_loop_TextEditor
      loop_body_def Let_def editor_call_TextEditor)

end
